theory Spec2Isabelle
  imports Main
begin

section \<open>JavaScript values read by the manager\<close>

text \<open>
  The manager (\<^verbatim>\<open>src/lib/OpskinsManager.js\<close>) reads four properties of every item
  object and compares them with \<^verbatim>\<open>==\<close>, \<^verbatim>\<open>===\<close> and \<^verbatim>\<open>!!\<close>. Property values are the
  JavaScript primitives. Numbers are the integers (ids, and prices in cents), compared
  exactly: NaN, the infinities, fractions and the rounding of doubles are outside the
  model. Strings are strings of ASCII characters. A missing property reads as
  \<open>JUndefined\<close>.
\<close>

datatype jsval = JUndefined | JNull | JBool bool | JNum int | JStr string

text \<open>\<^verbatim>\<open>!!v\<close>: undefined, null, false, 0 and the empty string are falsy.\<close>

fun truthy :: "jsval \<Rightarrow> bool" where
  "truthy JUndefined = False"
| "truthy JNull = False"
| "truthy (JBool b) = b"
| "truthy (JNum n) = (n \<noteq> 0)"
| "truthy (JStr s) = (s \<noteq> [])"

text \<open>
  The conversion of a string to a number, as \<^verbatim>\<open>==\<close> and \<^verbatim>\<open>Number(...)\<close> perform it:
  white space is stripped at both ends, the empty string is 0, an optionally signed run
  of decimal digits is its value. \<open>None\<close> stands for NaN and for every value that is
  not an integer; the other spellings of a number (fraction, exponent, hexadecimal) are
  not interpreted.
\<close>

definition is_space :: "char \<Rightarrow> bool" where
  "is_space c = (c \<in> set [CHR 0x09, CHR 0x0A, CHR 0x0B, CHR 0x0C, CHR 0x0D, CHR 0x20])"

definition trim :: "string \<Rightarrow> string" where
  "trim s = rev (dropWhile is_space (rev (dropWhile is_space s)))"

definition digit_of :: "char \<Rightarrow> nat option" where
  "digit_of c = (let k = (of_char c :: nat) in if 48 \<le> k \<and> k \<le> 57 then Some (k - 48) else None)"

fun digits_from :: "nat \<Rightarrow> string \<Rightarrow> nat option" where
  "digits_from acc [] = Some acc"
| "digits_from acc (c # cs) =
     (case digit_of c of None \<Rightarrow> None | Some d \<Rightarrow> digits_from (10 * acc + d) cs)"

definition decimal :: "string \<Rightarrow> int option" where
  "decimal s = (if s = [] then None else map_option int (digits_from 0 s))"

definition string_to_number :: "string \<Rightarrow> int option" where
  "string_to_number s =
     (case trim s of
        [] \<Rightarrow> Some 0
      | c # cs \<Rightarrow>
          if c = CHR ''-'' then map_option uminus (decimal cs)
          else if c = CHR ''+'' then decimal cs
          else decimal (c # cs))"

fun to_number :: "jsval \<Rightarrow> int option" where
  "to_number JUndefined = None"
| "to_number JNull = Some 0"
| "to_number (JBool b) = Some (if b then 1 else 0)"
| "to_number (JNum n) = Some n"
| "to_number (JStr s) = string_to_number s"

text \<open>
  \<^verbatim>\<open>x == y\<close> on primitives: equal types compare by value, null and undefined equal each
  other and nothing else, a boolean is converted to a number first, and a string against a
  number is converted to a number. \<^verbatim>\<open>x === y\<close> on these values is HOL's equality.
\<close>

fun loose_eq :: "jsval \<Rightarrow> jsval \<Rightarrow> bool" where
  "loose_eq JUndefined y = (y = JUndefined \<or> y = JNull)"
| "loose_eq JNull y = (y = JUndefined \<or> y = JNull)"
| "loose_eq (JNum a) (JNum b) = (a = b)"
| "loose_eq (JNum a) (JStr t) = (string_to_number t = Some a)"
| "loose_eq (JNum a) (JBool c) = (a = (if c then 1 else 0))"
| "loose_eq (JStr s) (JStr t) = (s = t)"
| "loose_eq (JStr s) (JNum b) = (string_to_number s = Some b)"
| "loose_eq (JStr s) (JBool c) = (string_to_number s = Some (if c then 1 else 0))"
| "loose_eq (JBool b) (JBool c) = (b = c)"
| "loose_eq (JBool b) (JNum a) = ((if b then 1 else 0) = a)"
| "loose_eq (JBool b) (JStr t) = (string_to_number t = Some (if b then 1 else 0))"
| "loose_eq (JNum a) _ = False"
| "loose_eq (JStr s) _ = False"
| "loose_eq (JBool b) _ = False"

section \<open>Item records and the objects passed in\<close>

text \<open>
  An object is the record of the property values the code reads from it. The cache holds
  records of exactly four properties; an object handed to the manager may carry more
  (the \<open>more\<close> part of the record scheme), which \<^verbatim>\<open>addItem\<close> drops. The field \<open>id'\<close> is
  the property \<^verbatim>\<open>id\<close>.
\<close>

record item =
  id' :: jsval
  name :: jsval
  appid :: jsval
  contextid :: jsval

text \<open>A search listing (its \<^verbatim>\<open>amount\<close> is read) and a purchase result (its \<^verbatim>\<open>new_itemid\<close>).\<close>

record listing = item +
  amount :: jsval

record purchase = item +
  new_itemid :: jsval

text \<open>
  The argument of \<^verbatim>\<open>findIndexById\<close> and \<^verbatim>\<open>removeItem\<close>: a bare primitive or an object.
\<close>

datatype 'a arg = Bare jsval | Obj "'a item_scheme"

datatype error =
    ApiKeyRequired
  | ItemNotFound
  | TypeError
  | RemoteError string

section \<open>The world and the manager\<close>

text \<open>
  The world outside the manager: the files of the inventory store and the trace of what
  was read, saved and called so far. The file of a manager is named
  \<^verbatim>\<open>'inventory_' + apiKey + '_' + appID + '_' + contextID + '.json'\<close>; the model keys the
  store by the triple. The events of the remote service carry what the call was given:
  the search its requested name (sent quoted as \<^verbatim>\<open>search_item\<close>), the pair of \<^verbatim>\<open>app\<close> and
  \<^verbatim>\<open>max\<close> when it is a number; \<^verbatim>\<open>buyItems\<close> the ids and \<^verbatim>\<open>Number(amount)\<close>;
  \<^verbatim>\<open>withdrawInventoryItems\<close> the ids.
\<close>

type_synonym file_key = "jsval \<times> jsval \<times> jsval"

datatype event =
    ReadFile file_key
  | SaveFile file_key "item list"
  | GetInventory
  | Search jsval "jsval \<times> jsval" "jsval option"
  | BuyItems "jsval list" "int option"
  | WithdrawInventoryItems "jsval list"

record world =
  storage :: "file_key \<Rightarrow> item list option"
  trace :: "event list"

record state = world +
  apiKey :: jsval
  appID :: jsval
  contextID :: jsval
  inventory :: "item list"

text \<open>
  Modelled from the spec: \<^verbatim>\<open>FileStorage.read\<close> (the source requires \<^verbatim>\<open>./FileStorage\<close>,
  which is not among the source files). It returns the list of records stored under the
  file, or an absent (falsy) value when there is no such file.
\<close>

definition FileStorage_read :: "file_key \<Rightarrow> state \<Rightarrow> item list option \<times> state" where
  "FileStorage_read k s = (storage s k, s\<lparr>trace := trace s @ [ReadFile k]\<rparr>)"

text \<open>
  Modelled from the spec: \<^verbatim>\<open>FileStorage.save\<close>. It replaces the content stored under the
  file by the given list of records.
\<close>

definition FileStorage_save :: "file_key \<Rightarrow> item list \<Rightarrow> state \<Rightarrow> state" where
  "FileStorage_save k arr s =
     s\<lparr>storage := (storage s)(k := Some arr), trace := trace s @ [SaveFile k arr]\<rparr>"

definition inventoryFile :: "state \<Rightarrow> file_key" where
  "inventoryFile s = (apiKey s, appID s, contextID s)"

text \<open>\<^verbatim>\<open>self._inventoryStorage.save(inventoryFile, this)\<close>, as both mutators call it.\<close>

definition save :: "state \<Rightarrow> state" where
  "save s = FileStorage_save (inventoryFile s) (inventory s) s"

section \<open>The cache operations\<close>

fun findByName :: "item list \<Rightarrow> jsval \<Rightarrow> item option" where
  "findByName [] n = None"
| "findByName (element # rest) n =
     (if loose_eq (name element) n then Some element else findByName rest n)"

text \<open>The loop of \<^verbatim>\<open>findIndexById\<close> from position \<open>i\<close> on; \<open>-1\<close> when nothing matches.\<close>

fun index_from :: "int \<Rightarrow> item list \<Rightarrow> jsval \<Rightarrow> int" where
  "index_from i [] v = -1"
| "index_from i (element # rest) v =
     (if loose_eq (id' element) v then i else index_from (i + 1) rest v)"

text \<open>
  \<^verbatim>\<open>typeof item === 'object' ? item.id : item\<close>: \<^verbatim>\<open>typeof null\<close> is \<^verbatim>\<open>'object'\<close>, and
  reading \<^verbatim>\<open>null.id\<close> raises a TypeError.
\<close>

definition id_of_arg :: "'a arg \<Rightarrow> error + jsval" where
  "id_of_arg a =
     (case a of
        Bare JNull \<Rightarrow> Inl TypeError
      | Bare v \<Rightarrow> Inr v
      | Obj r \<Rightarrow> Inr (id' r))"

definition findIndexById :: "item list \<Rightarrow> 'a arg \<Rightarrow> error + int" where
  "findIndexById arr a =
     (case id_of_arg a of
        Inl e \<Rightarrow> Inl e
      | Inr v \<Rightarrow> Inr (index_from 0 arr v))"

definition addItem :: "'a item_scheme \<Rightarrow> state \<Rightarrow> state" where
  "addItem raw s =
     (let item = \<lparr>id' = id' raw, name = name raw, appid = appid raw, contextid = contextid raw\<rparr>
      in if findIndexById (inventory s) (Obj item) = Inr (-1) \<and> truthy (id' item)
         then save (s\<lparr>inventory := inventory s @ [item]\<rparr>)
         else s)"

text \<open>\<^verbatim>\<open>splice(index, 1)\<close> removes the one element at \<open>index\<close>.\<close>

definition removeItem :: "'a arg \<Rightarrow> state \<Rightarrow> error + state" where
  "removeItem a s =
     (case findIndexById (inventory s) a of
        Inl e \<Rightarrow> Inl e
      | Inr index \<Rightarrow>
          if index \<noteq> -1
          then Inr (save (s\<lparr>inventory := take (nat index) (inventory s)
                                            @ drop (nat index + 1) (inventory s)\<rparr>))
          else Inr s)"

text \<open>
  A sequence of calls on the cache. A call that raises leaves the array as it was.
\<close>

datatype 'a call = AddItem "'a item_scheme" | RemoveItem "'a arg"

definition apply_call :: "state \<Rightarrow> 'a call \<Rightarrow> state" where
  "apply_call s c =
     (case c of
        AddItem raw \<Rightarrow> addItem raw s
      | RemoveItem a \<Rightarrow> (case removeItem a s of Inl e \<Rightarrow> s | Inr s' \<Rightarrow> s'))"

definition run_calls :: "'a call list \<Rightarrow> state \<Rightarrow> state" where
  "run_calls cs s = foldl apply_call s cs"

text \<open>No two records of the list have ids that \<^verbatim>\<open>==\<close> holds of.\<close>

fun unique_ids :: "item list \<Rightarrow> bool" where
  "unique_ids [] = True"
| "unique_ids (e # es) = (list_all (\<lambda>x. \<not> loose_eq (id' e) (id' x)) es \<and> unique_ids es)"

section \<open>Promises and the remote service\<close>

text \<open>
  The result of an asynchronous operation: the promise is resolved, rejected, or a
  callback of the remote service raised before either (\<open>Threw\<close>: the promise stays
  pending). The reply of the remote service to a call is an argument of the operation: the
  pair of values its callback receives, \<open>None\<close> for a falsy \<^verbatim>\<open>err\<close> and for a missing
  second value. The callbacks of one operation run with no other operation in between.
\<close>

datatype 'a outcome = Resolved 'a | Rejected error | Threw error

text \<open>
  \<^verbatim>\<open>setInventory\<close> assigns its four functions to \<^verbatim>\<open>this.inventory.__proto__\<close>, which is
  \<^verbatim>\<open>Array.prototype\<close>: they become enumerable properties of every array, and
  \<^verbatim>\<open>for (let i in array)\<close> visits the indices in ascending order and then these four keys.
  The value under such a key is an anonymous function: its \<^verbatim>\<open>name\<close> is the empty string
  and its \<^verbatim>\<open>id\<close>, \<^verbatim>\<open>appid\<close>, \<^verbatim>\<open>contextid\<close> and \<^verbatim>\<open>amount\<close> are undefined.
\<close>

definition inherited_keys :: "string list" where
  "inherited_keys = [''findByName'', ''findIndexById'', ''addItem'', ''removeItem'']"

definition prototype_function :: "string \<Rightarrow> item" where
  "prototype_function k =
     \<lparr>id' = JUndefined, name = JStr [], appid = JUndefined, contextid = JUndefined\<rparr>"

definition prototype_function_listing :: "string \<Rightarrow> listing" where
  "prototype_function_listing k =
     \<lparr>id' = JUndefined, name = JStr [], appid = JUndefined, contextid = JUndefined,
      amount = JUndefined\<rparr>"

section \<open>Construction and start-up\<close>

record options =
  accountName_opt :: jsval
  apiKey_opt :: jsval
  appID_opt :: jsval
  contextID_opt :: jsval

text \<open>A default of a destructured parameter applies when the property is undefined.\<close>

definition default_to :: "jsval \<Rightarrow> jsval \<Rightarrow> jsval" where
  "default_to d v = (if v = JUndefined then d else v)"

text \<open>
  \<^verbatim>\<open>getInventory\<close>: the callback \<^verbatim>\<open>(err, { items }) => ...\<close> destructures its second
  argument before it looks at \<^verbatim>\<open>err\<close>, which raises when that argument is missing.
\<close>

type_synonym 'a inventory_reply = "error option \<times> 'a item_scheme list option option"

definition getInventory :: "'a inventory_reply \<Rightarrow> 'a item_scheme list option outcome" where
  "getInventory reply =
     (case reply of
        (_, None) \<Rightarrow> Threw TypeError
      | (Some err, Some d) \<Rightarrow> Rejected err
      | (None, Some d) \<Rightarrow> Resolved d)"

text \<open>
  The \<^verbatim>\<open>then\<close> handler of \<^verbatim>\<open>setInventory\<close>: \<^verbatim>\<open>for (let i in items) addItem(items[i])\<close>.
  A rejection is caught and logged only.
\<close>

definition add_fetched :: "'a item_scheme list option outcome \<Rightarrow> state \<Rightarrow> state" where
  "add_fetched settled s =
     (case settled of
        Resolved (Some fetched_items) \<Rightarrow>
          foldl (\<lambda>s k. addItem (prototype_function k) s)
            (foldl (\<lambda>s x. addItem x s) s fetched_items) inherited_keys
      | _ \<Rightarrow> s)"

definition setInventory :: "'a inventory_reply \<Rightarrow> state \<Rightarrow> state" where
  "setInventory reply s =
     (case FileStorage_read (inventoryFile s) (s\<lparr>inventory := []\<rparr>) of
        (Some stored, s1) \<Rightarrow> s1\<lparr>inventory := stored\<rparr>
      | (None, s1) \<Rightarrow>
          add_fetched (getInventory reply) (s1\<lparr>trace := trace s1 @ [GetInventory]\<rparr>))"

text \<open>
  The constructor. A raise carries the world as it is at that moment.
\<close>

definition OpskinsManager ::
  "options \<Rightarrow> 'a inventory_reply \<Rightarrow> world \<Rightarrow> (error \<times> world) + state" where
  "OpskinsManager opts reply w =
     (if \<not> truthy (apiKey_opt opts) then Inl (ApiKeyRequired, w)
      else Inr (setInventory reply
             \<lparr>storage = storage w, trace = trace w,
              apiKey = apiKey_opt opts,
              appID = default_to (JNum 730) (appID_opt opts),
              contextID = default_to (JNum 2) (contextID_opt opts),
              inventory = []\<rparr>))"

section \<open>Buy\<close>

type_synonym search_reply = "error option \<times> listing list option"
type_synonym buy_reply = "error option \<times> purchase list option"

text \<open>The values \<^verbatim>\<open>sales[i]\<close> that \<^verbatim>\<open>for (let i in sales)\<close> visits, in order.\<close>

definition for_in_sales :: "listing list \<Rightarrow> listing list" where
  "for_in_sales sales = sales @ map prototype_function_listing inherited_keys"

definition itemToBuy :: "listing list \<Rightarrow> jsval \<Rightarrow> listing option" where
  "itemToBuy sales nm = find (\<lambda>x. name x = nm) (for_in_sales sales)"

text \<open>The purchase callback, entered after \<^verbatim>\<open>buyItems\<close> was called.\<close>

definition buy_callback :: "buy_reply \<Rightarrow> state \<Rightarrow> item outcome \<times> state" where
  "buy_callback bought s =
     (case bought of
        (Some err, _) \<Rightarrow> (Rejected err, s)
      | (None, Some (p # ps)) \<Rightarrow>
          (let item = \<lparr>id' = new_itemid p, name = name p,
                       appid = appID s, contextid = contextID s\<rparr>
           in (Resolved item, addItem item s))
      | (None, _) \<Rightarrow> (Threw TypeError, s))"

text \<open>The search callback: \<^verbatim>\<open>sales\<close> defaults to the empty array.\<close>

definition search_callback ::
  "jsval \<Rightarrow> search_reply \<Rightarrow> buy_reply \<Rightarrow> state \<Rightarrow> item outcome \<times> state" where
  "search_callback nm found bought s =
     (let sales = (case snd found of None \<Rightarrow> [] | Some xs \<Rightarrow> xs)
      in case (fst found, itemToBuy sales nm) of
           (Some err, _) \<Rightarrow> (Rejected err, s)
         | (None, None) \<Rightarrow> (Rejected ItemNotFound, s)
         | (None, Some b) \<Rightarrow>
             buy_callback bought
               (s\<lparr>trace := trace s @ [BuyItems [id' b] (to_number (amount b))]\<rparr>))"

definition buy ::
  "jsval \<Rightarrow> jsval \<Rightarrow> search_reply \<Rightarrow> buy_reply \<Rightarrow> state \<Rightarrow> item outcome \<times> state" where
  "buy nm mx found bought s =
     (case findByName (inventory s) nm of
        Some fromInventory \<Rightarrow> (Resolved fromInventory, s)
      | None \<Rightarrow>
          search_callback nm found bought
            (s\<lparr>trace := trace s @
                 [Search nm (appID s, contextID s)
                    (case mx of JNum m \<Rightarrow> Some mx | _ \<Rightarrow> None)]\<rparr>))"

section \<open>Withdraw\<close>

record offer =
  items :: "jsval list"
  bot_id :: jsval
  tradeoffer_id :: jsval
  tradeoffer_error :: jsval

type_synonym withdraw_reply = "error option \<times> offer list option"

text \<open>
  The part of \<^verbatim>\<open>withdraw\<close> that runs before the remote service answers: the removal and
  the call. The argument is an object.
\<close>

definition withdraw_call :: "'a item_scheme \<Rightarrow> state \<Rightarrow> error + state" where
  "withdraw_call item s =
     (case removeItem (Obj item) s of
        Inl e \<Rightarrow> Inl e
      | Inr s1 \<Rightarrow> Inr (s1\<lparr>trace := trace s1 @ [WithdrawInventoryItems [id' item]]\<rparr>))"

text \<open>The callback; the result is \<^verbatim>\<open>{items, bot_id, id, tradeoffer_error}\<close>.\<close>

definition withdraw_callback ::
  "'a item_scheme \<Rightarrow> withdraw_reply \<Rightarrow> state \<Rightarrow> (jsval list \<times> jsval \<times> jsval \<times> jsval) outcome \<times> state" where
  "withdraw_callback item reply s =
     (case reply of
        (Some err, _) \<Rightarrow> (Rejected err, addItem item s)
      | (None, Some (offer # rest)) \<Rightarrow>
          (Resolved (items offer, bot_id offer, tradeoffer_id offer, tradeoffer_error offer), s)
      | (None, _) \<Rightarrow> (Threw TypeError, s))"

definition withdraw ::
  "'a item_scheme \<Rightarrow> withdraw_reply \<Rightarrow> state \<Rightarrow> (jsval list \<times> jsval \<times> jsval \<times> jsval) outcome \<times> state" where
  "withdraw item reply s =
     (case withdraw_call item s of
        Inl e \<Rightarrow> (Rejected e, s)
      | Inr s1 \<Rightarrow> withdraw_callback item reply s1)"

section \<open>Notions of the statements\<close>

text \<open>
  In the specification's words, a list deduplicated by id, first occurrences kept in
  order: the head stays and every later record whose id \<^verbatim>\<open>==\<close> the head's is dropped.
\<close>

fun dedup_by_id :: "item list \<Rightarrow> item list" where
  "dedup_by_id [] = []"
| "dedup_by_id (x # xs) = x # dedup_by_id (filter (\<lambda>y. \<not> loose_eq (id' x) (id' y)) xs)"

text \<open>The record of four properties that \<^verbatim>\<open>addItem\<close> builds from an object.\<close>

definition normalized :: "'a item_scheme \<Rightarrow> item" where
  "normalized raw = \<lparr>id' = id' raw, name = name raw, appid = appid raw, contextid = contextid raw\<rparr>"

text \<open>The records of a list whose id \<^verbatim>\<open>==\<close> a given value.\<close>

definition with_id :: "jsval \<Rightarrow> item list \<Rightarrow> item list" where
  "with_id v arr = filter (\<lambda>e. loose_eq (id' e) v) arr"

text \<open>The number of \<^verbatim>\<open>getInventory\<close> calls in a trace.\<close>

definition fetches :: "event list \<Rightarrow> nat" where
  "fetches evs = length (filter (\<lambda>e. e = GetInventory) evs)"

section \<open>Concrete inputs\<close>

definition no_files :: world where
  "no_files = \<lparr>storage = (\<lambda>k. None), trace = []\<rparr>"

definition manager_of :: "item list \<Rightarrow> state" where
  "manager_of arr =
     \<lparr>storage = (\<lambda>k. None), trace = [],
      apiKey = JStr ''key'', appID = JNum 730, contextID = JNum 2, inventory = arr\<rparr>"

definition csgo_item :: "jsval \<Rightarrow> string \<Rightarrow> item" where
  "csgo_item i n = \<lparr>id' = i, name = JStr n, appid = JNum 730, contextid = JNum 2\<rparr>"

definition csgo_listing :: "jsval \<Rightarrow> string \<Rightarrow> int \<Rightarrow> listing" where
  "csgo_listing i n a =
     \<lparr>id' = i, name = JStr n, appid = JNum 730, contextid = JNum 2, amount = JNum a\<rparr>"

definition options_of :: "jsval \<Rightarrow> options" where
  "options_of k =
     \<lparr>accountName_opt = JUndefined, apiKey_opt = k,
      appID_opt = JUndefined, contextID_opt = JUndefined\<rparr>"

definition some_calls :: "unit call list" where
  "some_calls =
     [AddItem (csgo_item (JNum 5) ''AK''), AddItem (csgo_item (JStr ''5'') ''M4''),
      AddItem (csgo_item (JNum 0) ''P90''), AddItem (csgo_item (JNum 6) ''AWP''),
      RemoveItem (Bare JNull), RemoveItem (Obj (csgo_item (JStr ''5'') ''M4'')),
      AddItem (csgo_item (JNum 7) ''AK'')]"

text \<open>A cache built from the empty one by two \<^verbatim>\<open>addItem\<close> calls, ids \<^verbatim>\<open>"1"\<close> and \<^verbatim>\<open>"01"\<close>.\<close>

definition two_strings :: state where
  "two_strings =
     addItem (csgo_item (JStr ''01'') ''M4'') (addItem (csgo_item (JStr ''1'') ''AK'') (manager_of []))"

text \<open>A cache as a stored file may hold it: the ids \<^verbatim>\<open>2\<close> and \<^verbatim>\<open>"2"\<close> are both there.\<close>

definition four_items :: state where
  "four_items =
     manager_of [csgo_item (JNum 1) ''AK'', csgo_item (JNum 2) ''M4'',
                 csgo_item (JNum 3) ''AWP'', csgo_item (JStr ''2'') ''P90'']"

definition bought_item :: "jsval \<Rightarrow> string \<Rightarrow> purchase" where
  "bought_item i n =
     \<lparr>id' = JUndefined, name = JStr n, appid = JUndefined, contextid = JUndefined,
      new_itemid = i\<rparr>"

text \<open>The listings \<^verbatim>\<open>[{name:"A"},{name:"B"},{name:"A"}]\<close>, with ids 11, 12 and 13.\<close>

definition sales_ABA :: "listing list" where
  "sales_ABA =
     [csgo_listing (JNum 11) ''A'' 100, csgo_listing (JNum 12) ''B'' 200,
      csgo_listing (JNum 13) ''A'' 50]"

section \<open>Facts about the values\<close>

lemma loose_eq_sym: "loose_eq x y = loose_eq y x"
  by (cases x; cases y) auto

lemma loose_eq_refl: "loose_eq x x"
  by (cases x) auto

section \<open>Facts about the cache operations\<close>

lemma index_from_none:
  "0 \<le> i \<Longrightarrow> (index_from i arr v = -1) = (\<forall>e \<in> set arr. \<not> loose_eq (id' e) v)"
  by (induction i arr v rule: index_from.induct) auto

lemma index_from_found:
  "\<exists>e \<in> set arr. loose_eq (id' e) v \<Longrightarrow>
   index_from i arr v = i + int (length (takeWhile (\<lambda>e. \<not> loose_eq (id' e) v) arr))"
  by (induction i arr v rule: index_from.induct) fastforce+

lemma findIndexById_Obj: "findIndexById arr (Obj r) = Inr (index_from 0 arr (id' r))"
  by (simp add: findIndexById_def id_of_arg_def)

lemma inventory_save: "inventory (save s) = inventory s"
  by (simp add: save_def FileStorage_save_def)

lemma inventoryFile_inventory_update: "inventoryFile (s\<lparr>inventory := arr\<rparr>) = inventoryFile s"
  by (simp add: inventoryFile_def)

text \<open>What \<^verbatim>\<open>addItem\<close> does: it appends and persists, or it changes nothing.\<close>

lemma addItem_cases:
  "addItem raw s =
     (if (\<forall>e \<in> set (inventory s). \<not> loose_eq (id' e) (id' raw)) \<and> truthy (id' raw)
      then save (s\<lparr>inventory := inventory s @ [normalized raw]\<rparr>) else s)"
  by (simp add: addItem_def Let_def findIndexById_Obj index_from_none normalized_def)

lemma inventory_addItem:
  "inventory (addItem raw s) =
     (if (\<forall>e \<in> set (inventory s). \<not> loose_eq (id' e) (id' raw)) \<and> truthy (id' raw)
      then inventory s @ [normalized raw] else inventory s)"
  by (simp add: addItem_cases inventory_save)

lemma id_normalized: "id' (normalized raw) = id' raw"
  by (simp add: normalized_def)

lemma split_first:
  "\<exists>e \<in> set xs. P e \<Longrightarrow>
   \<exists>pre x post. xs = pre @ x # post \<and> (\<forall>e \<in> set pre. \<not> P e) \<and> P x"
proof (induction xs)
  case Nil
  then show ?case by simp
next
  case (Cons a xs)
  show ?case
  proof (cases "P a")
    case True
    then have "a # xs = [] @ a # xs \<and> (\<forall>e \<in> set []. \<not> P e) \<and> P a" by simp
    then show ?thesis by blast
  next
    case False
    with Cons.prems have "\<exists>e \<in> set xs. P e" by auto
    from Cons.IH [OF this] obtain pre x post where
      h: "xs = pre @ x # post" "\<forall>e \<in> set pre. \<not> P e" "P x" by blast
    with False have "a # xs = (a # pre) @ x # post \<and> (\<forall>e \<in> set (a # pre). \<not> P e) \<and> P x"
      by simp
    then show ?thesis by blast
  qed
qed

lemma removeItem_found:
  assumes a: "id_of_arg a = Inr v"
    and arr: "inventory s = pre @ x # post"
    and pre: "\<forall>e \<in> set pre. \<not> loose_eq (id' e) v"
    and x: "loose_eq (id' x) v"
  shows "removeItem a s = Inr (save (s\<lparr>inventory := pre @ post\<rparr>))"
proof -
  have ex: "\<exists>e \<in> set (inventory s). loose_eq (id' e) v" using arr x by auto
  have tw: "takeWhile (\<lambda>e. \<not> loose_eq (id' e) v) (inventory s) = pre"
    using arr pre x by (simp add: takeWhile_tail)
  have ix: "index_from 0 (inventory s) v = int (length pre)"
    using index_from_found [OF ex, of 0] tw by simp
  show ?thesis
    using a ix arr by (simp add: removeItem_def findIndexById_def)
qed

lemma removeItem_absent:
  assumes a: "id_of_arg a = Inr v"
    and no: "\<forall>e \<in> set (inventory s). \<not> loose_eq (id' e) v"
  shows "removeItem a s = Inr s"
  using a no index_from_none [of 0 "inventory s" v]
  by (simp add: removeItem_def findIndexById_def)

lemma removeItem_raises: "id_of_arg a = Inl e \<Longrightarrow> removeItem a s = Inl e"
  by (simp add: removeItem_def findIndexById_def)

lemma removeItem_splits:
  assumes "id_of_arg a = Inr v" and "\<exists>e \<in> set (inventory s). loose_eq (id' e) v"
  shows "\<exists>pre x post.
           inventory s = pre @ x # post \<and> (\<forall>e \<in> set pre. \<not> loose_eq (id' e) v) \<and>
           loose_eq (id' x) v \<and> removeItem a s = Inr (save (s\<lparr>inventory := pre @ post\<rparr>))"
proof -
  from split_first [OF assms(2)] obtain pre x post where
    h: "inventory s = pre @ x # post" "\<forall>e \<in> set pre. \<not> loose_eq (id' e) v"
       "loose_eq (id' x) v" by blast
  have "removeItem a s = Inr (save (s\<lparr>inventory := pre @ post\<rparr>))"
    using assms(1) h by (rule removeItem_found)
  with h show ?thesis by blast
qed

lemma save_effect:
  "inventory (save s) = inventory s \<and>
   storage (save s) (inventoryFile s) = Some (inventory s) \<and>
   trace (save s) = trace s @ [SaveFile (inventoryFile s) (inventory s)]"
  by (simp add: save_def FileStorage_save_def)

lemma unique_ids_append:
  "unique_ids (xs @ ys) =
     (unique_ids xs \<and> unique_ids ys \<and> (\<forall>x \<in> set xs. \<forall>y \<in> set ys. \<not> loose_eq (id' x) (id' y)))"
  by (induction xs) (auto simp: list_all_iff)

lemma unique_ids_distinct: "unique_ids xs \<Longrightarrow> distinct (map id' xs)"
  by (induction xs) (auto simp: list_all_iff loose_eq_refl)

text \<open>The two halves of the cache invariant, kept by every call.\<close>

lemma addItem_keeps:
  assumes "unique_ids (inventory s)" and "list_all (\<lambda>e. truthy (id' e)) (inventory s)"
  shows "unique_ids (inventory (addItem raw s)) \<and>
         list_all (\<lambda>e. truthy (id' e)) (inventory (addItem raw s))"
  using assms by (simp add: inventory_addItem unique_ids_append id_normalized)

lemma removeItem_keeps:
  assumes u: "unique_ids (inventory s)" and t: "list_all (\<lambda>e. truthy (id' e)) (inventory s)"
    and r: "removeItem a s = Inr s'"
  shows "unique_ids (inventory s') \<and> list_all (\<lambda>e. truthy (id' e)) (inventory s')"
proof (cases "id_of_arg a")
  case (Inl e)
  with r show ?thesis by (simp add: removeItem_raises)
next
  case (Inr v)
  show ?thesis
  proof (cases "\<exists>e \<in> set (inventory s). loose_eq (id' e) v")
    case False
    then have "removeItem a s = Inr s" using Inr by (simp add: removeItem_absent)
    with r u t show ?thesis by simp
  next
    case True
    from split_first [OF True] obtain pre x post where
      h: "inventory s = pre @ x # post" "\<forall>e \<in> set pre. \<not> loose_eq (id' e) v"
         "loose_eq (id' x) v" by blast
    have "removeItem a s = Inr (save (s\<lparr>inventory := pre @ post\<rparr>))"
      using Inr h by (rule removeItem_found)
    with r have "inventory s' = pre @ post" by (auto simp: inventory_save)
    with u t h(1) show ?thesis by (auto simp: unique_ids_append)
  qed
qed

lemma apply_call_keeps:
  assumes "unique_ids (inventory s)" and "list_all (\<lambda>e. truthy (id' e)) (inventory s)"
  shows "unique_ids (inventory (apply_call s c)) \<and>
         list_all (\<lambda>e. truthy (id' e)) (inventory (apply_call s c))"
proof (cases c)
  case (AddItem raw)
  with addItem_keeps [OF assms] show ?thesis by (simp add: apply_call_def)
next
  case (RemoveItem a)
  show ?thesis
  proof (cases "removeItem a s")
    case (Inl e)
    with RemoveItem assms show ?thesis by (simp add: apply_call_def)
  next
    case (Inr s')
    with RemoveItem removeItem_keeps [OF assms Inr] show ?thesis by (simp add: apply_call_def)
  qed
qed

lemma run_calls_keeps:
  "unique_ids (inventory s) \<Longrightarrow> list_all (\<lambda>e. truthy (id' e)) (inventory s) \<Longrightarrow>
   unique_ids (inventory (run_calls cs s)) \<and>
   list_all (\<lambda>e. truthy (id' e)) (inventory (run_calls cs s))"
  unfolding run_calls_def
proof (induction cs arbitrary: s)
  case Nil
  then show ?case by simp
next
  case (Cons c cs)
  from apply_call_keeps [OF Cons.prems, of c] Cons.IH [of "apply_call s c"]
  show ?case by simp
qed

section \<open>The cache invariant\<close>

text \<open>
  C1. Whatever sequence of \<^verbatim>\<open>addItem\<close> and \<^verbatim>\<open>removeItem\<close> calls is applied to an empty
  cache, no two records of the result have ids that \<^verbatim>\<open>==\<close> (or \<^verbatim>\<open>===\<close>) holds of, and
  the id of every record is truthy.
\<close>

theorem calls_keep_ids_unique_and_truthy:
  assumes "inventory s = []"
  shows "unique_ids (inventory (run_calls cs s)) \<and>
         distinct (map id' (inventory (run_calls cs s))) \<and>
         list_all (\<lambda>e. truthy (id' e)) (inventory (run_calls cs s))"
proof -
  have "unique_ids (inventory (run_calls cs s)) \<and>
        list_all (\<lambda>e. truthy (id' e)) (inventory (run_calls cs s))"
    using assms by (intro run_calls_keeps) simp_all
  then show ?thesis by (simp add: unique_ids_distinct)
qed

theorem calls_keep_ids_unique_and_truthy_witness:
  "inventory (manager_of []) = [] \<and>
   unique_ids (inventory (run_calls some_calls (manager_of []))) \<and>
   distinct (map id' (inventory (run_calls some_calls (manager_of [])))) \<and>
   list_all (\<lambda>e. truthy (id' e)) (inventory (run_calls some_calls (manager_of []))) \<and>
   map id' (inventory (run_calls some_calls (manager_of []))) = [JNum 6, JNum 7]"
proof -
  have e: "inventory (manager_of []) = []" by (simp add: manager_of_def)
  have r: "map id' (inventory (run_calls some_calls (manager_of []))) = [JNum 6, JNum 7]"
    by (simp add: run_calls_def some_calls_def apply_call_def manager_of_def csgo_item_def
        addItem_def removeItem_def findIndexById_def id_of_arg_def save_def FileStorage_save_def inventoryFile_def
        Let_def string_to_number_def trim_def is_space_def decimal_def digit_of_def)
  from calls_keep_ids_unique_and_truthy [OF e, of some_calls] e r show ?thesis by blast
qed

section \<open>addItem\<close>

lemma with_id_append: "with_id v (xs @ ys) = with_id v xs @ with_id v ys"
  by (simp add: with_id_def)

lemma with_id_empty: "(with_id v arr = []) = (\<forall>e \<in> set arr. \<not> loose_eq (id' e) v)"
  by (auto simp: with_id_def filter_empty_conv)

lemma addItem_again:
  assumes "truthy (id' r)"
  shows "addItem r (addItem r s) = addItem r s"
proof (cases "\<forall>e \<in> set (inventory s). \<not> loose_eq (id' e) (id' r)")
  case True
  with assms have "inventory (addItem r s) = inventory s @ [normalized r]"
    by (simp add: inventory_addItem)
  then have "\<not> (\<forall>e \<in> set (inventory (addItem r s)). \<not> loose_eq (id' e) (id' r))"
    by (simp add: id_normalized loose_eq_refl)
  then show ?thesis by (auto simp: addItem_cases [of r "addItem r s"])
next
  case False
  then have "addItem r s = s" by (auto simp: addItem_cases)
  then show ?thesis by simp
qed

text \<open>
  C6, as the code has it. For a record \<open>r\<close> with a truthy id: a second \<^verbatim>\<open>addItem(r)\<close>
  changes nothing (no insertion, no persist), after it some record of the cache has an
  id that \<^verbatim>\<open>==\<close> the id of \<open>r\<close>, and exactly one has when at most one had before the
  calls. An input whose id is falsy or \<^verbatim>\<open>==\<close> the id of a record of the cache leaves
  the state as it is; \<^verbatim>\<open>addItem\<close> has no raising branch.
\<close>

theorem addItem_idempotent:
  "(truthy (id' r) \<longrightarrow>
      addItem r (addItem r s) = addItem r s \<and>
      with_id (id' r) (inventory (addItem r (addItem r s))) \<noteq> [] \<and>
      (length (with_id (id' r) (inventory s)) \<le> 1 \<longrightarrow>
         length (with_id (id' r) (inventory (addItem r (addItem r s)))) = 1)) \<and>
   (\<not> truthy (id' r) \<or> with_id (id' r) (inventory s) \<noteq> [] \<longrightarrow> addItem r s = s)"
proof -
  have ignored: "\<not> truthy (id' r) \<or> with_id (id' r) (inventory s) \<noteq> [] \<longrightarrow> addItem r s = s"
    by (auto simp: addItem_cases with_id_empty)
  have one: "length (with_id (id' r) (inventory (addItem r s))) = 1"
    if t: "truthy (id' r)" and le: "length (with_id (id' r) (inventory s)) \<le> 1"
  proof (cases "with_id (id' r) (inventory s) = []")
    case True
    then have "inventory (addItem r s) = inventory s @ [normalized r]"
      using t by (simp add: inventory_addItem with_id_empty)
    with True show ?thesis
      by (simp add: with_id_append) (simp add: with_id_def id_normalized loose_eq_refl)
  next
    case False
    then have "addItem r s = s" using ignored by simp
    moreover from False le have "length (with_id (id' r) (inventory s)) = 1"
      by (cases "with_id (id' r) (inventory s)") auto
    ultimately show ?thesis by simp
  qed
  have some: "with_id (id' r) (inventory (addItem r s)) \<noteq> []" if t: "truthy (id' r)"
  proof (cases "with_id (id' r) (inventory s) = []")
    case True
    then have "inventory (addItem r s) = inventory s @ [normalized r]"
      using t by (simp add: inventory_addItem with_id_empty)
    then show ?thesis by (simp add: with_id_def id_normalized loose_eq_refl)
  next
    case False
    with ignored show ?thesis by simp
  qed
  from ignored one some show ?thesis by (simp add: addItem_again)
qed

theorem addItem_idempotent_witness:
  "truthy (id' (csgo_item (JNum 5) ''AK'')) \<and>
   length (with_id (id' (csgo_item (JNum 5) ''AK'')) (inventory (manager_of []))) \<le> 1 \<and>
   addItem (csgo_item (JNum 5) ''AK'') (addItem (csgo_item (JNum 5) ''AK'') (manager_of []))
     = addItem (csgo_item (JNum 5) ''AK'') (manager_of []) \<and>
   length (with_id (id' (csgo_item (JNum 5) ''AK''))
     (inventory (addItem (csgo_item (JNum 5) ''AK'')
        (addItem (csgo_item (JNum 5) ''AK'') (manager_of []))))) = 1 \<and>
   \<not> truthy (id' (csgo_item (JStr []) ''AK'')) \<and>
   addItem (csgo_item (JStr []) ''AK'') (manager_of []) = manager_of []"
proof -
  have t: "truthy (id' (csgo_item (JNum 5) ''AK''))" by (simp add: csgo_item_def)
  have le: "length (with_id (id' (csgo_item (JNum 5) ''AK'')) (inventory (manager_of []))) \<le> 1"
    by (simp add: manager_of_def with_id_def)
  have f: "\<not> truthy (id' (csgo_item (JStr []) ''AK''))" by (simp add: csgo_item_def)
  from addItem_idempotent [of "csgo_item (JNum 5) ''AK''" "manager_of []"] t le
  have a: "addItem (csgo_item (JNum 5) ''AK'') (addItem (csgo_item (JNum 5) ''AK'') (manager_of []))
             = addItem (csgo_item (JNum 5) ''AK'') (manager_of [])"
    and b: "length (with_id (id' (csgo_item (JNum 5) ''AK''))
             (inventory (addItem (csgo_item (JNum 5) ''AK'')
                (addItem (csgo_item (JNum 5) ''AK'') (manager_of []))))) = 1"
    by blast+
  from addItem_idempotent [of "csgo_item (JStr []) ''AK''" "manager_of []"] f
  have c: "addItem (csgo_item (JStr []) ''AK'') (manager_of []) = manager_of []"
    by blast
  from t le a b f c show ?thesis by blast
qed

text \<open>
  The claim as stated fails on a cache that \<^verbatim>\<open>addItem\<close> itself built: after the ids
  \<^verbatim>\<open>"1"\<close> and \<^verbatim>\<open>"01"\<close>, two calls of \<^verbatim>\<open>addItem\<close> with the id \<^verbatim>\<open>1\<close> leave two records whose
  id \<^verbatim>\<open>==\<close> 1, and none whose id \<^verbatim>\<open>===\<close> 1.
\<close>

theorem addItem_twice_counterexample:
  "truthy (id' (csgo_item (JNum 1) ''AWP'')) \<and>
   length (with_id (id' (csgo_item (JNum 1) ''AWP''))
     (inventory (addItem (csgo_item (JNum 1) ''AWP'')
        (addItem (csgo_item (JNum 1) ''AWP'') two_strings)))) = 2 \<and>
   find (\<lambda>e. id' e = id' (csgo_item (JNum 1) ''AWP''))
     (inventory (addItem (csgo_item (JNum 1) ''AWP'')
        (addItem (csgo_item (JNum 1) ''AWP'') two_strings))) = None"
  by (simp add: two_strings_def with_id_def manager_of_def csgo_item_def
      addItem_def findIndexById_def id_of_arg_def save_def FileStorage_save_def inventoryFile_def
      Let_def string_to_number_def trim_def is_space_def decimal_def digit_of_def)

section \<open>removeItem\<close>

text \<open>
  C8. The argument of \<^verbatim>\<open>removeItem\<close> is an id or a record, \<open>v\<close> the id it denotes. When a
  record of the cache has an id that \<^verbatim>\<open>==\<close> \<open>v\<close>, the first such record and no other is
  removed, the records before and after it keep their values and order, and the new
  content is saved. When no record has, \<^verbatim>\<open>removeItem\<close> returns without raising and the
  state (cache, file, trace) is as before.
\<close>

theorem removeItem_removes_first_match:
  assumes "id_of_arg a = Inr v"
  shows "(with_id v (inventory s) \<noteq> [] \<longrightarrow>
           (\<exists>pre x post s'.
              inventory s = pre @ x # post \<and> with_id v pre = [] \<and> loose_eq (id' x) v \<and>
              removeItem a s = Inr s' \<and> inventory s' = pre @ post \<and>
              storage s' (inventoryFile s) = Some (pre @ post) \<and>
              trace s' = trace s @ [SaveFile (inventoryFile s) (pre @ post)])) \<and>
         (with_id v (inventory s) = [] \<longrightarrow> removeItem a s = Inr s)"
proof (intro conjI impI)
  assume "with_id v (inventory s) \<noteq> []"
  then have "\<exists>e \<in> set (inventory s). loose_eq (id' e) v" by (simp add: with_id_empty)
  from removeItem_splits [OF assms this] obtain pre x post where
    h: "inventory s = pre @ x # post" "\<forall>e \<in> set pre. \<not> loose_eq (id' e) v"
       "loose_eq (id' x) v"
    and r: "removeItem a s = Inr (save (s\<lparr>inventory := pre @ post\<rparr>))" by blast
  have "inventory s = pre @ x # post \<and> with_id v pre = [] \<and> loose_eq (id' x) v \<and>
        removeItem a s = Inr (save (s\<lparr>inventory := pre @ post\<rparr>)) \<and>
        inventory (save (s\<lparr>inventory := pre @ post\<rparr>)) = pre @ post \<and>
        storage (save (s\<lparr>inventory := pre @ post\<rparr>)) (inventoryFile s) = Some (pre @ post) \<and>
        trace (save (s\<lparr>inventory := pre @ post\<rparr>))
          = trace s @ [SaveFile (inventoryFile s) (pre @ post)]"
    using h r by (simp add: with_id_empty save_def FileStorage_save_def inventoryFile_def)
  then show "\<exists>pre x post s'.
      inventory s = pre @ x # post \<and> with_id v pre = [] \<and> loose_eq (id' x) v \<and>
      removeItem a s = Inr s' \<and> inventory s' = pre @ post \<and>
      storage s' (inventoryFile s) = Some (pre @ post) \<and>
      trace s' = trace s @ [SaveFile (inventoryFile s) (pre @ post)]"
    by blast
next
  assume "with_id v (inventory s) = []"
  then have "\<forall>e \<in> set (inventory s). \<not> loose_eq (id' e) v" by (simp add: with_id_empty)
  with assms show "removeItem a s = Inr s" by (rule removeItem_absent)
qed

theorem removeItem_removes_first_match_witness:
  "id_of_arg (Bare (JStr ''2'') :: unit arg) = Inr (JStr ''2'') \<and>
   with_id (JStr ''2'') (inventory four_items) \<noteq> [] \<and>
   (\<exists>pre x post s'.
      inventory four_items = pre @ x # post \<and> with_id (JStr ''2'') pre = [] \<and>
      loose_eq (id' x) (JStr ''2'') \<and>
      removeItem (Bare (JStr ''2'') :: unit arg) four_items = Inr s' \<and>
      inventory s' = pre @ post \<and>
      storage s' (inventoryFile four_items) = Some (pre @ post) \<and>
      trace s' = trace four_items @ [SaveFile (inventoryFile four_items) (pre @ post)]) \<and>
   removeItem (Bare (JStr ''2'') :: unit arg) four_items =
     Inr (save (manager_of [csgo_item (JNum 1) ''AK'', csgo_item (JNum 3) ''AWP'',
                            csgo_item (JStr ''2'') ''P90''])) \<and>
   id_of_arg (Obj (csgo_item (JNum 9) ''AK'')) = Inr (JNum 9) \<and>
   with_id (JNum 9) (inventory four_items) = [] \<and>
   removeItem (Obj (csgo_item (JNum 9) ''AK'')) four_items = Inr four_items"
proof -
  have a: "id_of_arg (Bare (JStr ''2'') :: unit arg) = Inr (JStr ''2'')"
    by (simp add: id_of_arg_def)
  have m: "with_id (JStr ''2'') (inventory four_items) \<noteq> []"
    by (simp add: four_items_def manager_of_def csgo_item_def with_id_def
        string_to_number_def trim_def is_space_def decimal_def digit_of_def)
  have r: "removeItem (Bare (JStr ''2'') :: unit arg) four_items =
     Inr (save (manager_of [csgo_item (JNum 1) ''AK'', csgo_item (JNum 3) ''AWP'',
                            csgo_item (JStr ''2'') ''P90'']))"
    by (simp add: four_items_def manager_of_def csgo_item_def removeItem_def
        findIndexById_def id_of_arg_def
        string_to_number_def trim_def is_space_def decimal_def digit_of_def)
  have b: "id_of_arg (Obj (csgo_item (JNum 9) ''AK'')) = Inr (JNum 9)"
    by (simp add: id_of_arg_def csgo_item_def)
  have n: "with_id (JNum 9) (inventory four_items) = []"
    by (simp add: four_items_def manager_of_def csgo_item_def with_id_def
        string_to_number_def trim_def is_space_def decimal_def digit_of_def)
  from removeItem_removes_first_match [OF a, of four_items] m
    removeItem_removes_first_match [OF b, of four_items] n a b r
  show ?thesis by blast
qed

section \<open>withdraw\<close>

lemma with_id_single_rest:
  assumes "length (with_id v (pre @ x # post)) = 1" and "loose_eq (id' x) v"
  shows "with_id v pre = [] \<and> with_id v post = []"
  using assms by (simp add: with_id_def)

text \<open>
  C2, as the code has it. The item passed to \<^verbatim>\<open>withdraw\<close> carries a truthy id and
  exactly one record of the cache has an id that \<^verbatim>\<open>==\<close> it. Then that record is removed
  and the cache saved before \<^verbatim>\<open>withdrawInventoryItems\<close> is called, so that no record with
  that id is in the cache when the call is made. When the remote call fails,
  \<^verbatim>\<open>addItem(item)\<close> appends the four properties of the argument at the end of the cache
  and saves it, the promise is rejected with the remote error, and the cache again holds
  exactly one record with that id.
\<close>

theorem withdraw_compensates_single_match:
  assumes "truthy (id' item)" and "length (with_id (id' item) (inventory s)) = 1"
  shows "\<exists>pre x post s1.
           inventory s = pre @ x # post \<and> with_id (id' item) pre = [] \<and>
           with_id (id' item) post = [] \<and> loose_eq (id' x) (id' item) \<and>
           withdraw_call item s = Inr s1 \<and>
           inventory s1 = pre @ post \<and>
           with_id (id' item) (inventory s1) = [] \<and>
           storage s1 (inventoryFile s) = Some (pre @ post) \<and>
           trace s1 = trace s @ [SaveFile (inventoryFile s) (pre @ post),
                                 WithdrawInventoryItems [id' item]] \<and>
           fst (withdraw item (Some err, d) s) = Rejected err \<and>
           inventory (snd (withdraw item (Some err, d) s)) = pre @ post @ [normalized item] \<and>
           length (with_id (id' item) (inventory (snd (withdraw item (Some err, d) s)))) = 1 \<and>
           storage (snd (withdraw item (Some err, d) s)) (inventoryFile s)
             = Some (pre @ post @ [normalized item]) \<and>
           trace (snd (withdraw item (Some err, d) s))
             = trace s1 @ [SaveFile (inventoryFile s) (pre @ post @ [normalized item])]"
proof -
  have v: "id_of_arg (Obj item) = Inr (id' item)" by (simp add: id_of_arg_def)
  from assms(2) have "with_id (id' item) (inventory s) \<noteq> []" by auto
  then have "\<exists>e \<in> set (inventory s). loose_eq (id' e) (id' item)"
    by (simp add: with_id_empty)
  from removeItem_splits [OF v this] obtain pre x post where
    p: "inventory s = pre @ x # post" "\<forall>e \<in> set pre. \<not> loose_eq (id' e) (id' item)"
       "loose_eq (id' x) (id' item)"
    and r: "removeItem (Obj item) s = Inr (save (s\<lparr>inventory := pre @ post\<rparr>))" by blast
  have rest: "with_id (id' item) pre = []" "with_id (id' item) post = []"
    using with_id_single_rest [of "id' item" pre x post] assms(2) p(1,3) by simp_all
  define s1 where
    "s1 = (save (s\<lparr>inventory := pre @ post\<rparr>))
            \<lparr>trace := trace s @ [SaveFile (inventoryFile s) (pre @ post),
                                 WithdrawInventoryItems [id' item]]\<rparr>"
  have c: "withdraw_call item s = Inr s1"
    using r save_effect [of "s\<lparr>inventory := pre @ post\<rparr>"]
    by (simp add: withdraw_call_def s1_def inventoryFile_inventory_update)
  have i1: "inventory s1 = pre @ post"
    by (simp add: s1_def inventory_save)
  have f1: "inventoryFile s1 = inventoryFile s"
    by (simp add: s1_def save_def FileStorage_save_def inventoryFile_def)
  have st1: "storage s1 (inventoryFile s) = Some (pre @ post)"
    using save_effect [of "s\<lparr>inventory := pre @ post\<rparr>"]
    by (simp add: s1_def inventoryFile_inventory_update)
  have t1: "trace s1 = trace s @ [SaveFile (inventoryFile s) (pre @ post),
                                  WithdrawInventoryItems [id' item]]"
    by (simp add: s1_def)
  have none: "with_id (id' item) (inventory s1) = []"
    using rest by (simp add: i1 with_id_append)
  then have a: "addItem item s1 = save (s1\<lparr>inventory := pre @ post @ [normalized item]\<rparr>)"
    using assms(1) i1 by (simp add: addItem_cases with_id_empty)
  have w: "withdraw item (Some err, d) s = (Rejected err, addItem item s1)"
    using c by (simp add: withdraw_def withdraw_callback_def)
  have fin: "inventory (addItem item s1) = pre @ post @ [normalized item]"
    "storage (addItem item s1) (inventoryFile s) = Some (pre @ post @ [normalized item])"
    "trace (addItem item s1)
       = trace s1 @ [SaveFile (inventoryFile s) (pre @ post @ [normalized item])]"
    using save_effect [of "s1\<lparr>inventory := pre @ post @ [normalized item]\<rparr>"] f1
    by (simp_all add: a inventoryFile_inventory_update)
  have one: "length (with_id (id' item) (inventory (addItem item s1))) = 1"
    using rest by (simp add: fin(1) with_id_append) (simp add: with_id_def id_normalized loose_eq_refl)
  have "inventory s = pre @ x # post \<and> with_id (id' item) pre = [] \<and>
        with_id (id' item) post = [] \<and> loose_eq (id' x) (id' item) \<and>
        withdraw_call item s = Inr s1 \<and>
        inventory s1 = pre @ post \<and>
        with_id (id' item) (inventory s1) = [] \<and>
        storage s1 (inventoryFile s) = Some (pre @ post) \<and>
        trace s1 = trace s @ [SaveFile (inventoryFile s) (pre @ post),
                              WithdrawInventoryItems [id' item]] \<and>
        fst (withdraw item (Some err, d) s) = Rejected err \<and>
        inventory (snd (withdraw item (Some err, d) s)) = pre @ post @ [normalized item] \<and>
        length (with_id (id' item) (inventory (snd (withdraw item (Some err, d) s)))) = 1 \<and>
        storage (snd (withdraw item (Some err, d) s)) (inventoryFile s)
          = Some (pre @ post @ [normalized item]) \<and>
        trace (snd (withdraw item (Some err, d) s))
          = trace s1 @ [SaveFile (inventoryFile s) (pre @ post @ [normalized item])]"
    using p(1,3) rest c i1 none st1 t1 w fin one by simp
  then show ?thesis by blast
qed

theorem withdraw_compensates_single_match_witness:
  "truthy (id' (csgo_listing (JNum 3) ''AWP'' 250)) \<and>
   length (with_id (id' (csgo_listing (JNum 3) ''AWP'' 250)) (inventory four_items)) = 1 \<and>
   (\<exists>pre x post s1.
      inventory four_items = pre @ x # post \<and>
      with_id (id' (csgo_listing (JNum 3) ''AWP'' 250)) pre = [] \<and>
      with_id (id' (csgo_listing (JNum 3) ''AWP'' 250)) post = [] \<and>
      loose_eq (id' x) (id' (csgo_listing (JNum 3) ''AWP'' 250)) \<and>
      withdraw_call (csgo_listing (JNum 3) ''AWP'' 250) four_items = Inr s1 \<and>
      inventory s1 = pre @ post \<and>
      with_id (id' (csgo_listing (JNum 3) ''AWP'' 250)) (inventory s1) = [] \<and>
      storage s1 (inventoryFile four_items) = Some (pre @ post) \<and>
      trace s1 = trace four_items @ [SaveFile (inventoryFile four_items) (pre @ post),
                   WithdrawInventoryItems [id' (csgo_listing (JNum 3) ''AWP'' 250)]] \<and>
      fst (withdraw (csgo_listing (JNum 3) ''AWP'' 250)
             (Some (RemoteError ''down''), None) four_items) = Rejected (RemoteError ''down'') \<and>
      inventory (snd (withdraw (csgo_listing (JNum 3) ''AWP'' 250)
             (Some (RemoteError ''down''), None) four_items))
        = pre @ post @ [normalized (csgo_listing (JNum 3) ''AWP'' 250)] \<and>
      length (with_id (id' (csgo_listing (JNum 3) ''AWP'' 250))
         (inventory (snd (withdraw (csgo_listing (JNum 3) ''AWP'' 250)
             (Some (RemoteError ''down''), None) four_items)))) = 1 \<and>
      storage (snd (withdraw (csgo_listing (JNum 3) ''AWP'' 250)
             (Some (RemoteError ''down''), None) four_items)) (inventoryFile four_items)
        = Some (pre @ post @ [normalized (csgo_listing (JNum 3) ''AWP'' 250)]) \<and>
      trace (snd (withdraw (csgo_listing (JNum 3) ''AWP'' 250)
             (Some (RemoteError ''down''), None) four_items))
        = trace s1 @ [SaveFile (inventoryFile four_items)
                        (pre @ post @ [normalized (csgo_listing (JNum 3) ''AWP'' 250)])]) \<and>
   inventory (snd (withdraw (csgo_listing (JNum 3) ''AWP'' 250)
      (Some (RemoteError ''down''), None) four_items))
     = [csgo_item (JNum 1) ''AK'', csgo_item (JNum 2) ''M4'', csgo_item (JStr ''2'') ''P90'',
        csgo_item (JNum 3) ''AWP'']"
proof -
  have t: "truthy (id' (csgo_listing (JNum 3) ''AWP'' 250))" by (simp add: csgo_listing_def)
  have m: "length (with_id (id' (csgo_listing (JNum 3) ''AWP'' 250)) (inventory four_items)) = 1"
    by (simp add: four_items_def manager_of_def csgo_item_def csgo_listing_def with_id_def
        string_to_number_def trim_def is_space_def decimal_def digit_of_def)
  have r: "inventory (snd (withdraw (csgo_listing (JNum 3) ''AWP'' 250)
      (Some (RemoteError ''down''), None) four_items))
     = [csgo_item (JNum 1) ''AK'', csgo_item (JNum 2) ''M4'', csgo_item (JStr ''2'') ''P90'',
        csgo_item (JNum 3) ''AWP'']"
    by (simp add: withdraw_def withdraw_call_def withdraw_callback_def
        four_items_def manager_of_def csgo_item_def csgo_listing_def removeItem_def addItem_def
        findIndexById_def id_of_arg_def save_def FileStorage_save_def inventoryFile_def Let_def
        string_to_number_def trim_def is_space_def decimal_def digit_of_def)
  from withdraw_compensates_single_match [OF t m, of "RemoteError ''down''" None] t m r
  show ?thesis by blast
qed

text \<open>
  The claim as stated fails on a cache that \<^verbatim>\<open>addItem\<close> itself built. With the ids
  \<^verbatim>\<open>"1"\<close> and \<^verbatim>\<open>"01"\<close> in the cache, \<^verbatim>\<open>withdraw({id: 1})\<close> removes the record \<^verbatim>\<open>"1"\<close>; when
  the remote call fails \<^verbatim>\<open>addItem\<close> finds \<^verbatim>\<open>"01" == 1\<close> and inserts nothing: the
  withdrawn record is lost, the argument is not in the cache, and no record has an id
  \<^verbatim>\<open>===\<close> 1. The same happens on the cache of the ids 1, 2, 3, \<^verbatim>\<open>"2"\<close> with \<^verbatim>\<open>{id: 2}\<close>.
\<close>

theorem failed_withdraw_loses_record_counterexample:
  "truthy (id' (csgo_item (JNum 1) ''AK'')) \<and>
   inventory two_strings = [csgo_item (JStr ''1'') ''AK'', csgo_item (JStr ''01'') ''M4''] \<and>
   with_id (id' (csgo_item (JNum 1) ''AK'')) (inventory two_strings) \<noteq> [] \<and>
   withdraw (csgo_item (JNum 1) ''AK'') (Some (RemoteError ''down''), None) two_strings
     = (Rejected (RemoteError ''down''),
        two_strings\<lparr>inventory := [csgo_item (JStr ''01'') ''M4''],
          storage := (storage two_strings)
            (inventoryFile two_strings := Some [csgo_item (JStr ''01'') ''M4'']),
          trace := trace two_strings @
            [SaveFile (inventoryFile two_strings) [csgo_item (JStr ''01'') ''M4''],
             WithdrawInventoryItems [JNum 1]]\<rparr>) \<and>
   find (\<lambda>e. id' e = JNum 1)
     (inventory (snd (withdraw (csgo_item (JNum 1) ''AK'')
        (Some (RemoteError ''down''), None) two_strings))) = None \<and>
   truthy (id' (csgo_item (JNum 2) ''M4'')) \<and>
   with_id (id' (csgo_item (JNum 2) ''M4'')) (inventory four_items) \<noteq> [] \<and>
   inventory (snd (withdraw (csgo_item (JNum 2) ''M4'')
        (Some (RemoteError ''down''), None) four_items))
     = [csgo_item (JNum 1) ''AK'', csgo_item (JNum 3) ''AWP'', csgo_item (JStr ''2'') ''P90'']"
  by (simp add: withdraw_def withdraw_call_def withdraw_callback_def two_strings_def
      four_items_def manager_of_def csgo_item_def with_id_def removeItem_def addItem_def
      findIndexById_def id_of_arg_def save_def FileStorage_save_def inventoryFile_def Let_def
      string_to_number_def trim_def is_space_def decimal_def digit_of_def)

text \<open>
  C10. The item carries a truthy id and no record of the cache has an id that \<^verbatim>\<open>==\<close> it.
  Then \<^verbatim>\<open>removeItem\<close> changes nothing, and when the remote call fails the promise is
  rejected and the cache holds one record more, the four properties of the argument, at
  its end.
\<close>

theorem failed_withdraw_inserts_absent_item:
  assumes "truthy (id' item)" and "with_id (id' item) (inventory s) = []"
  shows "withdraw_call item s = Inr (s\<lparr>trace := trace s @ [WithdrawInventoryItems [id' item]]\<rparr>) \<and>
         fst (withdraw item (Some err, d) s) = Rejected err \<and>
         inventory (snd (withdraw item (Some err, d) s)) = inventory s @ [normalized item]"
proof -
  have v: "id_of_arg (Obj item) = Inr (id' item)" by (simp add: id_of_arg_def)
  have r: "removeItem (Obj item) s = Inr s"
    using removeItem_absent [OF v] assms(2) by (simp add: with_id_empty)
  then have c: "withdraw_call item s
      = Inr (s\<lparr>trace := trace s @ [WithdrawInventoryItems [id' item]]\<rparr>)"
    by (simp add: withdraw_call_def)
  have "inventory (addItem item (s\<lparr>trace := trace s @ [WithdrawInventoryItems [id' item]]\<rparr>))
      = inventory s @ [normalized item]"
    using assms by (simp add: inventory_addItem with_id_empty)
  with c show ?thesis by (simp add: withdraw_def withdraw_callback_def)
qed

theorem failed_withdraw_inserts_absent_item_witness:
  "truthy (id' (csgo_listing (JNum 9) ''AK'' 250)) \<and>
   with_id (id' (csgo_listing (JNum 9) ''AK'' 250)) (inventory four_items) = [] \<and>
   fst (withdraw (csgo_listing (JNum 9) ''AK'' 250) (Some (RemoteError ''down''), None) four_items)
     = Rejected (RemoteError ''down'') \<and>
   inventory (snd (withdraw (csgo_listing (JNum 9) ''AK'' 250)
      (Some (RemoteError ''down''), None) four_items))
     = inventory four_items @ [csgo_item (JNum 9) ''AK'']"
proof -
  have t: "truthy (id' (csgo_listing (JNum 9) ''AK'' 250))" by (simp add: csgo_listing_def)
  have m: "with_id (id' (csgo_listing (JNum 9) ''AK'' 250)) (inventory four_items) = []"
    by (simp add: four_items_def manager_of_def csgo_item_def csgo_listing_def with_id_def
        string_to_number_def trim_def is_space_def decimal_def digit_of_def)
  have n: "normalized (csgo_listing (JNum 9) ''AK'' 250) = csgo_item (JNum 9) ''AK''"
    by (simp add: normalized_def csgo_listing_def csgo_item_def)
  from failed_withdraw_inserts_absent_item [OF t m, of "RemoteError ''down''" None] t m n
  show ?thesis by simp
qed

section \<open>buy\<close>

lemma findByName_in_cache: "findByName arr n = Some r \<Longrightarrow> r \<in> set arr \<and> loose_eq (name r) n"
  by (induction arr) (auto split: if_splits)

text \<open>
  C3. When \<^verbatim>\<open>findByName(name)\<close> returns a record of the cache, \<^verbatim>\<open>buy\<close> resolves to that
  record and the state is as before: no search or purchase call is in the trace, and the
  cache and the file are untouched.
\<close>

theorem buy_returns_cached_item:
  assumes "findByName (inventory s) nm = Some r"
  shows "buy nm mx found bought s = (Resolved r, s) \<and> r \<in> set (inventory s)"
  using assms findByName_in_cache [OF assms] by (simp add: buy_def)

theorem buy_returns_cached_item_witness:
  "findByName (inventory four_items) (JStr ''M4'') = Some (csgo_item (JNum 2) ''M4'') \<and>
   buy (JStr ''M4'') (JNum 3) (None, Some sales_ABA) (None, None) four_items
     = (Resolved (csgo_item (JNum 2) ''M4''), four_items) \<and>
   csgo_item (JNum 2) ''M4'' \<in> set (inventory four_items)"
proof -
  have f: "findByName (inventory four_items) (JStr ''M4'') = Some (csgo_item (JNum 2) ''M4'')"
    by (simp add: four_items_def manager_of_def csgo_item_def)
  from buy_returns_cached_item [OF f, of "JNum 3" "(None, Some sales_ABA)" "(None, None)"] f
  show ?thesis by simp
qed

text \<open>The scan of the search callback over the listings proper.\<close>

lemma find_append_cases:
  "find P (xs @ ys) = (case find P xs of None \<Rightarrow> find P ys | Some x \<Rightarrow> Some x)"
  by (induction xs) auto

lemma find_first:
  "\<forall>l \<in> set pre. \<not> P l \<Longrightarrow> P x \<Longrightarrow> find P (pre @ x # rest) = Some x"
  by (induction pre) auto

lemma itemToBuy_first_match:
  assumes "sales = pre @ x # post" and "\<forall>l \<in> set pre. name l \<noteq> nm" and "name x = nm"
  shows "itemToBuy sales nm = Some x"
  using assms(1) find_first [of pre "\<lambda>l. name l = nm" x, OF assms(2,3)]
  by (simp add: itemToBuy_def for_in_sales_def)

lemma itemToBuy_no_match:
  assumes "\<forall>l \<in> set sales. name l \<noteq> nm"
  shows "itemToBuy sales nm =
           (if nm = JStr [] then Some (prototype_function_listing ''findByName'') else None)"
proof -
  have "find (\<lambda>l. name l = nm) sales = None" using assms by (simp add: find_None_iff)
  then show ?thesis
    by (auto simp: itemToBuy_def for_in_sales_def find_append_cases inherited_keys_def
        prototype_function_listing_def)
qed

text \<open>
  For a requested name other than the empty string: the first listing with exactly that
  name is bought, and without one the promise is rejected with the error of a missing
  item.
\<close>

lemma buy_selects_first_exact_match:
  assumes "findByName (inventory s) nm = None"
    and "sales = pre @ x # post" and "\<forall>l \<in> set pre. name l \<noteq> nm" and "name x = nm"
  shows "buy nm mx (None, Some sales) bought s =
           buy_callback bought
             (s\<lparr>trace := trace s @
                  [Search nm (appID s, contextID s) (case mx of JNum m \<Rightarrow> Some mx | _ \<Rightarrow> None),
                   BuyItems [id' x] (to_number (amount x))]\<rparr>)"
  using assms(1) itemToBuy_first_match [OF assms(2,3,4)]
  by (simp add: buy_def search_callback_def)

lemma buy_item_not_found:
  assumes "findByName (inventory s) nm = None"
    and "\<forall>l \<in> set sales. name l \<noteq> nm" and "nm \<noteq> JStr []"
  shows "buy nm mx (None, Some sales) bought s =
           (Rejected ItemNotFound,
            s\<lparr>trace := trace s @
                 [Search nm (appID s, contextID s) (case mx of JNum m \<Rightarrow> Some mx | _ \<Rightarrow> None)]\<rparr>)"
  using assms(1,3) itemToBuy_no_match [OF assms(2)]
  by (simp add: buy_def search_callback_def)

lemma first_A_of_ABA:
  "itemToBuy sales_ABA (JStr ''A'') = Some (csgo_listing (JNum 11) ''A'' 100)"
  by (simp add: itemToBuy_def for_in_sales_def sales_ABA_def csgo_listing_def)

text \<open>
  C4 at the empty name. No listing is returned, yet the scan of \<^verbatim>\<open>for (let i in sales)\<close>
  reaches the key \<^verbatim>\<open>findByName\<close> that \<^verbatim>\<open>setInventory\<close> put on \<^verbatim>\<open>Array.prototype\<close>, whose
  value is a function with the name \<^verbatim>\<open>""\<close>: the promise is not rejected for a missing
  item, \<^verbatim>\<open>buyItems([undefined], NaN)\<close> is called.
\<close>

theorem buy_empty_name_selects_prototype_function:
  "findByName (inventory (manager_of [])) (JStr []) = None \<and>
   itemToBuy [] (JStr []) = Some (prototype_function_listing ''findByName'') \<and>
   buy (JStr []) JUndefined (None, Some []) (Some (RemoteError ''bad request''), None) (manager_of [])
     = (Rejected (RemoteError ''bad request''),
        (manager_of [])\<lparr>trace := [Search (JStr []) (JNum 730, JNum 2) None,
                                   BuyItems [JUndefined] None]\<rparr>)"
  by (simp add: buy_def search_callback_def buy_callback_def itemToBuy_def for_in_sales_def
      inherited_keys_def prototype_function_listing_def manager_of_def)

text \<open>A rejected \<^verbatim>\<open>buy\<close> leaves the cache and the file as they were.\<close>

lemma buy_callback_rejected:
  "fst (buy_callback bought s) = Rejected e \<Longrightarrow> snd (buy_callback bought s) = s"
  by (auto simp: buy_callback_def Let_def split: prod.splits option.splits list.splits)

lemma rejected_buy_keeps_cache:
  assumes "fst (buy nm mx found bought s) = Rejected e"
  shows "inventory (snd (buy nm mx found bought s)) = inventory s \<and>
         storage (snd (buy nm mx found bought s)) = storage s"
proof (cases "findByName (inventory s) nm")
  case (Some r)
  then show ?thesis by (simp add: buy_def)
next
  case None
  show ?thesis
  proof (cases "fst found")
    case (Some err)
    with None show ?thesis by (simp add: buy_def search_callback_def Let_def)
  next
    case no_err: None
    show ?thesis
    proof (cases "itemToBuy (case snd found of None \<Rightarrow> [] | Some xs \<Rightarrow> xs) nm")
      case None
      with \<open>findByName (inventory s) nm = None\<close> no_err show ?thesis
        by (simp add: buy_def search_callback_def Let_def)
    next
      case (Some b)
      let ?s2 = "s\<lparr>trace := trace s @
          [Search nm (appID s, contextID s) (case mx of JNum m \<Rightarrow> Some mx | _ \<Rightarrow> None),
           BuyItems [id' b] (to_number (amount b))]\<rparr>"
      have eq: "buy nm mx found bought s = buy_callback bought ?s2"
        using \<open>findByName (inventory s) nm = None\<close> no_err Some
        by (simp add: buy_def search_callback_def Let_def)
      with assms have "snd (buy_callback bought ?s2) = ?s2"
        by (simp add: buy_callback_rejected)
      with eq show ?thesis by simp
    qed
  qed
qed

text \<open>
  C5 at the empty name. No listing matches and the purchase call that follows is
  answered without an error: the promise is resolved and the cache has a new record.
\<close>

theorem buy_empty_name_no_listing_changes_cache:
  "findByName (inventory (manager_of [])) (JStr []) = None \<and>
   find (\<lambda>l. name l = JStr []) sales_ABA = None \<and>
   fst (buy (JStr []) JUndefined (None, Some sales_ABA) (None, Some [bought_item (JNum 77) ''AK''])
          (manager_of []))
     = Resolved (csgo_item (JNum 77) ''AK'') \<and>
   inventory (snd (buy (JStr []) JUndefined (None, Some sales_ABA)
                     (None, Some [bought_item (JNum 77) ''AK'']) (manager_of [])))
     = [csgo_item (JNum 77) ''AK'']"
  by (simp add: buy_def search_callback_def buy_callback_def itemToBuy_def for_in_sales_def
      inherited_keys_def prototype_function_listing_def manager_of_def sales_ABA_def
      csgo_listing_def csgo_item_def bought_item_def addItem_def findIndexById_def
      id_of_arg_def save_def FileStorage_save_def inventoryFile_def Let_def)

section \<open>Construction and start-up\<close>

text \<open>
  C9. A falsy \<^verbatim>\<open>apiKey\<close> (missing, empty, 0, null) makes the constructor raise, with the
  world as it was: nothing is read, saved or called before.
\<close>

theorem constructor_requires_apiKey:
  assumes "\<not> truthy (apiKey_opt opts)"
  shows "OpskinsManager opts reply w = Inl (ApiKeyRequired, w)"
  using assms by (simp add: OpskinsManager_def)

theorem constructor_requires_apiKey_witness:
  "\<not> truthy (apiKey_opt (options_of JUndefined)) \<and>
   OpskinsManager (options_of JUndefined) (None, Some (Some [csgo_item (JNum 5) ''AK'']))
     no_files = Inl (ApiKeyRequired, no_files) \<and>
   \<not> truthy (apiKey_opt (options_of (JStr []))) \<and>
   OpskinsManager (options_of (JStr [])) (None, Some (Some [csgo_item (JNum 5) ''AK'']))
     no_files = Inl (ApiKeyRequired, no_files)"
proof -
  have u: "\<not> truthy (apiKey_opt (options_of JUndefined))" by (simp add: options_of_def)
  have e: "\<not> truthy (apiKey_opt (options_of (JStr [])))" by (simp add: options_of_def)
  from constructor_requires_apiKey
      [OF u, of "(None, Some (Some [csgo_item (JNum 5) ''AK'']))" no_files]
    constructor_requires_apiKey
      [OF e, of "(None, Some (Some [csgo_item (JNum 5) ''AK'']))" no_files] u e
  show ?thesis by simp
qed

text \<open>What the loop of the \<^verbatim>\<open>then\<close> handler leaves in the cache.\<close>

lemma foldl_addItem_inventory:
  "inventory (foldl (\<lambda>s x. addItem x s) s xs) =
     inventory s @
     dedup_by_id (filter (\<lambda>y. truthy (id' y) \<and> (\<forall>e \<in> set (inventory s). \<not> loose_eq (id' e) (id' y)))
                    (map normalized xs))"
proof (induction xs arbitrary: s)
  case Nil
  then show ?case by simp
next
  case (Cons x xs)
  show ?case
  proof (cases "truthy (id' x) \<and> (\<forall>e \<in> set (inventory s). \<not> loose_eq (id' e) (id' x))")
    case True
    then have inv: "inventory (addItem x s) = inventory s @ [normalized x]"
      by (simp add: inventory_addItem)
    have "filter (\<lambda>y. \<not> loose_eq (id' (normalized x)) (id' y))
            (filter (\<lambda>y. truthy (id' y) \<and> (\<forall>e \<in> set (inventory s). \<not> loose_eq (id' e) (id' y)))
               (map normalized xs))
          = filter (\<lambda>y. truthy (id' y) \<and>
                         (\<forall>e \<in> set (inventory s @ [normalized x]). \<not> loose_eq (id' e) (id' y)))
               (map normalized xs)"
      by (auto intro: filter_cong)
    with True inv Cons.IH [of "addItem x s"] show ?thesis
      by (simp add: id_normalized)
  next
    case False
    then have "inventory (addItem x s) = inventory s" by (auto simp: inventory_addItem)
    with False Cons.IH [of "addItem x s"] show ?thesis
      by (auto simp: id_normalized)
  qed
qed

lemma addItem_prototype_function: "addItem (prototype_function k) s = s"
  by (simp add: addItem_cases prototype_function_def)

lemma foldl_prototype_functions:
  "foldl (\<lambda>s k. addItem (prototype_function k) s) s ks = s"
  by (induction ks) (simp_all add: addItem_prototype_function)

lemma fetches_addItem: "fetches (trace (addItem x s)) = fetches (trace s)"
  by (simp add: addItem_cases save_def FileStorage_save_def fetches_def)

lemma fetches_foldl_addItem: "fetches (trace (foldl (\<lambda>s x. addItem x s) s xs)) = fetches (trace s)"
  by (induction xs arbitrary: s) (simp_all add: fetches_addItem)

lemma add_fetched_inventory:
  "inventory s = [] \<Longrightarrow>
   inventory (add_fetched (Resolved (Some xs)) s)
     = dedup_by_id (filter (\<lambda>y. truthy (id' y)) (map normalized xs))"
  by (simp add: add_fetched_def foldl_prototype_functions foldl_addItem_inventory)

lemma add_fetched_fetches: "fetches (trace (add_fetched f s)) = fetches (trace s)"
  by (simp add: add_fetched_def foldl_prototype_functions fetches_foldl_addItem
      split: outcome.splits option.splits)

lemma add_fetched_failed:
  "f = Rejected e \<or> f = Threw e \<or> f = Resolved None \<Longrightarrow> add_fetched f s = s"
  by (auto simp: add_fetched_def)

text \<open>
  C7, as the code has it. The apiKey is truthy and no file is stored under the key. Then
  the constructor returns a manager, one \<^verbatim>\<open>getInventory\<close> call is made, and after a
  successful fetch the cache is the list of the fetched items whose id is truthy, each
  reduced to its four properties, deduplicated by id with first occurrences kept in
  order. When the fetch fails the cache is empty.
\<close>

theorem startup_without_file_fetches_once:
  assumes "truthy (apiKey_opt opts)"
    and "storage w (apiKey_opt opts, default_to (JNum 730) (appID_opt opts),
                    default_to (JNum 2) (contextID_opt opts)) = None"
  shows "map_sum fst inventory (OpskinsManager opts (None, Some (Some fetched)) w)
           = Inr (dedup_by_id (filter (\<lambda>y. truthy (id' y)) (map normalized fetched))) \<and>
         map_sum fst (\<lambda>s. fetches (trace s)) (OpskinsManager opts (None, Some (Some fetched)) w)
           = Inr (fetches (trace w) + 1) \<and>
         map_sum fst inventory (OpskinsManager opts (Some err, d) w) = Inr [] \<and>
         map_sum fst (\<lambda>s. fetches (trace s)) (OpskinsManager opts (Some err, d) w)
           = Inr (fetches (trace w) + 1)"
proof -
  have ok: "getInventory (None, Some (Some fetched)) = Resolved (Some fetched)"
    by (simp add: getInventory_def)
  have bad: "getInventory (Some err, d) = Rejected err \<or> getInventory (Some err, d) = Threw TypeError"
    by (cases d) (simp_all add: getInventory_def)
  have failed: "add_fetched (getInventory (Some err, d)) s = s" for s
    using bad by (auto simp: add_fetched_failed)
  show ?thesis
    using assms
    by (simp add: OpskinsManager_def setInventory_def FileStorage_read_def Let_def inventoryFile_def ok failed
        add_fetched_inventory add_fetched_fetches) (simp add: fetches_def)
qed

theorem startup_without_file_fetches_once_witness:
  "truthy (apiKey_opt (options_of (JStr ''key''))) \<and>
   storage no_files (apiKey_opt (options_of (JStr ''key'')),
      default_to (JNum 730) (appID_opt (options_of (JStr ''key''))),
      default_to (JNum 2) (contextID_opt (options_of (JStr ''key'')))) = None \<and>
   map_sum fst inventory (OpskinsManager (options_of (JStr ''key''))
       (None, Some (Some [csgo_listing (JNum 5) ''AK'' 100, csgo_listing (JStr []) ''M4'' 100,
                          csgo_listing (JStr ''5'') ''AWP'' 100, csgo_listing (JNum 6) ''AK'' 100]))
       no_files)
     = Inr [csgo_item (JNum 5) ''AK'', csgo_item (JNum 6) ''AK''] \<and>
   map_sum fst inventory (OpskinsManager (options_of (JStr ''key''))
       (Some (RemoteError ''down''), (None :: listing list option option)) no_files) = Inr []"
proof -
  have t: "truthy (apiKey_opt (options_of (JStr ''key'')))" by (simp add: options_of_def)
  have n: "storage no_files (apiKey_opt (options_of (JStr ''key'')),
      default_to (JNum 730) (appID_opt (options_of (JStr ''key''))),
      default_to (JNum 2) (contextID_opt (options_of (JStr ''key'')))) = None"
    by (simp add: no_files_def)
  have d: "dedup_by_id (filter (\<lambda>y. truthy (id' y)) (map normalized
       [csgo_listing (JNum 5) ''AK'' 100, csgo_listing (JStr []) ''M4'' 100,
        csgo_listing (JStr ''5'') ''AWP'' 100, csgo_listing (JNum 6) ''AK'' 100]))
     = [csgo_item (JNum 5) ''AK'', csgo_item (JNum 6) ''AK'']"
    by (simp add: normalized_def csgo_listing_def csgo_item_def
        string_to_number_def trim_def is_space_def decimal_def digit_of_def)
  note x = startup_without_file_fetches_once [OF t n,
      of "[csgo_listing (JNum 5) ''AK'' 100, csgo_listing (JStr []) ''M4'' 100,
           csgo_listing (JStr ''5'') ''AWP'' 100, csgo_listing (JNum 6) ''AK'' 100]"
         "RemoteError ''down''" None, unfolded d]
  from x t n show ?thesis by blast
qed

text \<open>
  The claim as stated fails when a fetched item has an empty id: \<^verbatim>\<open>addItem\<close> skips it,
  the deduplicated list keeps it.
\<close>

theorem startup_skips_empty_id_counterexample:
  "map_sum fst inventory (OpskinsManager (options_of (JStr ''key''))
       (None, Some (Some [csgo_item (JStr []) ''AK''])) no_files) = Inr [] \<and>
   dedup_by_id (map normalized [csgo_item (JStr []) ''AK'']) = [csgo_item (JStr []) ''AK'']"
  by (simp add: OpskinsManager_def setInventory_def FileStorage_read_def getInventory_def add_fetched_def
      options_of_def no_files_def default_to_def inventoryFile_def inherited_keys_def
      prototype_function_def csgo_item_def normalized_def addItem_def findIndexById_def
      id_of_arg_def Let_def)

end
